theory Spec2Isabelle
  imports Complex_Main
begin

section \<open>JavaScript values\<close>

text \<open>
  The engine of \<^verbatim>\<open>sequence-detector.js\<close> computes on JavaScript numbers. A number is
  modelled as a finite value or one of the three special values of IEEE arithmetic. Finite
  values are exact reals: rounding, overflow to an infinity and the sign of zero are not
  modelled. The special values follow the IEEE rules that JavaScript applies.
\<close>

datatype jsnum = Fin real | PInf | NInf | NaN

text \<open>An array element: a value whose \<^verbatim>\<open>typeof\<close> is \<^verbatim>\<open>'number'\<close>, or any other value.\<close>

datatype jsval = Number jsnum | NonNumber

text \<open>The argument of \<^verbatim>\<open>analyze\<close>: an array, or a value that \<^verbatim>\<open>Array.isArray\<close> rejects.\<close>

datatype jsinput = Array "jsval list" | NotArray

fun jneg :: "jsnum \<Rightarrow> jsnum" where
  "jneg (Fin a) = Fin (- a)"
| "jneg PInf = NInf"
| "jneg NInf = PInf"
| "jneg NaN = NaN"

fun jadd :: "jsnum \<Rightarrow> jsnum \<Rightarrow> jsnum" where
  "jadd NaN y = NaN"
| "jadd x NaN = NaN"
| "jadd (Fin a) (Fin b) = Fin (a + b)"
| "jadd PInf NInf = NaN"
| "jadd NInf PInf = NaN"
| "jadd PInf y = PInf"
| "jadd x PInf = PInf"
| "jadd NInf y = NInf"
| "jadd x NInf = NInf"

definition jsub :: "jsnum \<Rightarrow> jsnum \<Rightarrow> jsnum" where
  "jsub x y = jadd x (jneg y)"

text \<open>The sign of an infinite product or quotient: positive when both signs agree.\<close>

definition jinf :: "bool \<Rightarrow> jsnum" where
  "jinf positive = (if positive then PInf else NInf)"

fun jmul :: "jsnum \<Rightarrow> jsnum \<Rightarrow> jsnum" where
  "jmul NaN y = NaN"
| "jmul x NaN = NaN"
| "jmul (Fin a) (Fin b) = Fin (a * b)"
| "jmul (Fin a) y = (if a = 0 then NaN else jinf ((0 < a) = (y = PInf)))"
| "jmul x (Fin b) = (if b = 0 then NaN else jinf ((0 < b) = (x = PInf)))"
| "jmul x y = jinf (x = y)"

text \<open>
  Division. A finite zero divisor is taken as \<^verbatim>\<open>+0\<close>: the only zero the engine can divide
  by is the length of an empty array.
\<close>

fun jdiv :: "jsnum \<Rightarrow> jsnum \<Rightarrow> jsnum" where
  "jdiv NaN y = NaN"
| "jdiv x NaN = NaN"
| "jdiv (Fin a) (Fin b) =
     (if b = 0 then (if a = 0 then NaN else jinf (0 < a)) else Fin (a / b))"
| "jdiv (Fin a) y = Fin 0"
| "jdiv x (Fin b) = jinf ((0 \<le> b) = (x = PInf))"
| "jdiv x y = NaN"

fun jabs :: "jsnum \<Rightarrow> jsnum" where
  "jabs (Fin a) = Fin \<bar>a\<bar>"
| "jabs PInf = PInf"
| "jabs NInf = PInf"
| "jabs NaN = NaN"

text \<open>The comparison \<^verbatim>\<open>x < y\<close>: false whenever an operand is \<^verbatim>\<open>NaN\<close>.\<close>

fun jless :: "jsnum \<Rightarrow> jsnum \<Rightarrow> bool" where
  "jless NaN y = False"
| "jless x NaN = False"
| "jless (Fin a) (Fin b) = (a < b)"
| "jless x NInf = False"
| "jless PInf y = False"
| "jless x y = True"

definition isNaN :: "jsnum \<Rightarrow> bool" where
  "isNaN x = (x = NaN)"

text \<open>
  Reading an array out of range gives \<^verbatim>\<open>undefined\<close>, modelled as \<open>None\<close>; in arithmetic
  \<^verbatim>\<open>undefined\<close> converts to \<^verbatim>\<open>NaN\<close>.
\<close>

definition firstOf :: "'a list \<Rightarrow> 'a option" where
  "firstOf xs = (case xs of [] \<Rightarrow> None | x # _ \<Rightarrow> Some x)"

definition lastOf :: "'a list \<Rightarrow> 'a option" where
  "lastOf xs = (if xs = [] then None else Some (last xs))"

fun toNumber :: "jsnum option \<Rightarrow> jsnum" where
  "toNumber None = NaN"
| "toNumber (Some x) = x"

section \<open>Detection results\<close>

datatype kind = arithmetic | geometric | polynomial | unknown | invalid

datatype params =
    ArithmeticParams jsnum "jsnum option"
  | GeometricParams jsnum "jsnum option"
  | PolynomialParams nat "jsnum list list"

text \<open>
  The result object. A field that an object does not carry is \<open>None\<close>. The fields
  \<^verbatim>\<open>isValid\<close>, \<^verbatim>\<open>pattern\<close> and \<^verbatim>\<open>formula\<close> (display strings) are left out; a detector
  that answers \<^verbatim>\<open>{ isValid: false }\<close> returns \<open>None\<close> in the model.
\<close>

record result =
  success :: bool
  type :: kind
  error :: "string option"
  parameters :: "params option"
  prediction :: "jsnum option"
  confidence :: "real option"
  sequence :: "jsnum list option"
  predictions :: "jsval list option"
  extendedSequence :: "jsval list option"

section \<open>The detectors\<close>

text \<open>\<^verbatim>\<open>for (i = 1; i < xs.length; i++) out.push(xs[i] - xs[i - 1])\<close>\<close>

fun differencesOf :: "jsnum list \<Rightarrow> jsnum list" where
  "differencesOf (x # y # zs) = jsub y x # differencesOf (y # zs)"
| "differencesOf zs = []"

text \<open>\<^verbatim>\<open>for (i = 1; i < xs.length; i++) out.push(xs[i] / xs[i - 1])\<close>\<close>

fun ratiosOf :: "jsnum list \<Rightarrow> jsnum list" where
  "ratiosOf (x # y # zs) = jdiv y x # ratiosOf (y # zs)"
| "ratiosOf zs = []"

text \<open>\<^verbatim>\<open>xs.reduce((a, b) => a + b, 0) / xs.length\<close>\<close>

definition mean :: "jsnum list \<Rightarrow> jsnum" where
  "mean xs = jdiv (foldl jadd (Fin 0) xs) (Fin (real (length xs)))"

text \<open>\<^verbatim>\<open>xs.every(d => Math.abs(d - avg) < 0.0001)\<close>\<close>

definition everyNear :: "jsnum list \<Rightarrow> jsnum \<Rightarrow> bool" where
  "everyNear xs avg = list_all (\<lambda>d. jless (jabs (jsub d avg)) (Fin (1 / 10000))) xs"

definition detectArithmetic :: "jsnum list \<Rightarrow> result option" where
  "detectArithmetic seq =
     (let differences = differencesOf seq;
          avgDifference = mean differences;
          isConstant = everyNear differences avgDifference
      in if isConstant then
           Some \<lparr> success = True, type = arithmetic, error = None,
                  parameters = Some (ArithmeticParams avgDifference (firstOf seq)),
                  prediction = Some (jadd (toNumber (lastOf seq)) avgDifference),
                  confidence = Some 1,
                  sequence = Some seq,
                  predictions = None, extendedSequence = None \<rparr>
         else None)"

definition detectGeometric :: "jsnum list \<Rightarrow> result option" where
  "detectGeometric seq =
     (if list_ex (\<lambda>n. n = Fin 0) seq then None
      else
        let ratios = ratiosOf seq;
            avgRatio = mean ratios;
            isConstant = everyNear ratios avgRatio
        in if isConstant \<and> jless (Fin (1 / 10000)) (jabs avgRatio) then
             Some \<lparr> success = True, type = geometric, error = None,
                    parameters = Some (GeometricParams avgRatio (firstOf seq)),
                    prediction = Some (jmul (toNumber (lastOf seq)) avgRatio),
                    confidence = Some 1,
                    sequence = Some seq,
                    predictions = None, extendedSequence = None \<rparr>
           else None)"

text \<open>
  The loop of \<^verbatim>\<open>detectPolynomial\<close> that builds the difference levels. Its state is the
  loop counter, the table built so far and the current level; it returns the table and the
  degree, which stays 0 when the loop ends without finding a constant level.
\<close>

function buildLevels :: "nat \<Rightarrow> jsnum list list \<Rightarrow> jsnum list \<Rightarrow> jsnum list list \<times> nat" where
  "buildLevels level diffLevels currentLevel =
     (if level < 5 \<and> length currentLevel > 1 then
        let nextLevel = differencesOf currentLevel;
            diffLevels' = diffLevels @ [nextLevel]
        in if length nextLevel > 0 \<and> everyNear nextLevel (mean nextLevel)
           then (diffLevels', level + 1)
           else buildLevels (level + 1) diffLevels' nextLevel
      else (diffLevels, 0))"
  by pat_completeness auto
termination
  by (relation "measure (\<lambda>(level, diffLevels, currentLevel). 5 - level)") auto

declare buildLevels.simps [simp del]

text \<open>
  The loop of \<^verbatim>\<open>predictFromDifferences\<close>, for \<open>i\<close> from its argument down to 1, on the
  copied table. Both pushes update the table in place.
\<close>

fun extendLevels :: "nat \<Rightarrow> jsnum list list \<Rightarrow> jsnum list list" where
  "extendLevels 0 extendedLevels = extendedLevels"
| "extendLevels (Suc j) extendedLevels =
     (let i = Suc j;
          currentLevel = extendedLevels ! i;
          parentLevel = extendedLevels ! (i - 1)
      in if length currentLevel > 0 then
           let lastValue = last currentLevel;
               pushed = extendedLevels[i := currentLevel @ [lastValue]];
               parentLastValue = toNumber (lastOf parentLevel)
           in extendLevels j (pushed[i - 1 := parentLevel @ [jadd parentLastValue lastValue]])
         else extendLevels j extendedLevels)"

text \<open>
  \<^verbatim>\<open>predictFromDifferences\<close>. On an empty table the source throws a \<^verbatim>\<open>TypeError\<close>;
  \<^verbatim>\<open>detectPolynomial\<close>, its only caller, always passes a table whose level 0 is the
  sequence (lemma \<open>buildLevels_nonempty\<close>), and the model answers \<open>None\<close> there.
\<close>

definition predictFromDifferences :: "jsnum list list \<Rightarrow> jsnum option" where
  "predictFromDifferences diffLevels =
     (case extendLevels (length diffLevels - 1) diffLevels of
        [] \<Rightarrow> None
      | level0 # _ \<Rightarrow> lastOf level0)"

definition detectPolynomial :: "jsnum list \<Rightarrow> result option" where
  "detectPolynomial seq =
     (if length seq < 4 then None
      else
        let (diffLevels, degree) = buildLevels 0 [seq] seq
        in if degree > 0 \<and> degree \<le> 4 then
             Some \<lparr> success = True, type = polynomial, error = None,
                    parameters = Some (PolynomialParams degree diffLevels),
                    prediction = predictFromDifferences diffLevels,
                    confidence = Some (9 / 10),
                    sequence = Some seq,
                    predictions = None, extendedSequence = None \<rparr>
           else None)"

section \<open>The pipeline\<close>

text \<open>\<^verbatim>\<open>typeof num !== 'number' || isNaN(num)\<close>\<close>

fun invalidElement :: "jsval \<Rightarrow> bool" where
  "invalidElement NonNumber = True"
| "invalidElement (Number x) = isNaN x"

text \<open>
  The elements as numbers, for the detectors. They run only after every element has passed
  the check above, so the second equation is never used by \<open>analyze\<close>.
\<close>

fun numberOf :: "jsval \<Rightarrow> jsnum" where
  "numberOf (Number x) = x"
| "numberOf NonNumber = NaN"

definition invalidResult :: "string \<Rightarrow> result" where
  "invalidResult msg =
     \<lparr> success = False, type = invalid, error = Some msg, parameters = None,
       prediction = None, confidence = None, sequence = None,
       predictions = None, extendedSequence = None \<rparr>"

definition unknownResult :: "jsnum list \<Rightarrow> result" where
  "unknownResult xs =
     \<lparr> success = False, type = unknown,
       error = Some ''Unable to detect a valid pattern in the sequence'',
       parameters = None, prediction = None, confidence = None, sequence = Some xs,
       predictions = None, extendedSequence = None \<rparr>"

text \<open>The three detectors in their fixed order, once the input is validated.\<close>

definition detect :: "jsnum list \<Rightarrow> result" where
  "detect xs =
     (case detectArithmetic xs of
        Some arithmeticResult \<Rightarrow> arithmeticResult
      | None \<Rightarrow>
          (case detectGeometric xs of
             Some geometricResult \<Rightarrow> geometricResult
           | None \<Rightarrow>
               (case detectPolynomial xs of
                  Some polynomialResult \<Rightarrow> polynomialResult
                | None \<Rightarrow> unknownResult xs)))"

fun analyze :: "jsinput \<Rightarrow> result" where
  "analyze NotArray = invalidResult ''Sequence must be an array with at least 2 elements''"
| "analyze (Array s) =
     (if length s < 2 then
        invalidResult ''Sequence must be an array with at least 2 elements''
      else if list_ex invalidElement s then
        invalidResult ''All elements must be valid numbers''
      else detect (map numberOf s))"

text \<open>
  The detectors that one call of \<^verbatim>\<open>analyze\<close> invokes, in order: the control flow of
  \<^verbatim>\<open>analyze\<close> with each call recorded.
\<close>

datatype detector = Arithmetic | Geometric | Polynomial

definition detectTrace :: "jsnum list \<Rightarrow> detector list" where
  "detectTrace xs =
     (case detectArithmetic xs of
        Some arithmeticResult \<Rightarrow> [Arithmetic]
      | None \<Rightarrow>
          (case detectGeometric xs of
             Some geometricResult \<Rightarrow> [Arithmetic, Geometric]
           | None \<Rightarrow> [Arithmetic, Geometric, Polynomial]))"

fun analyzeTrace :: "jsinput \<Rightarrow> detector list" where
  "analyzeTrace NotArray = []"
| "analyzeTrace (Array s) =
     (if length s < 2 then []
      else if list_ex invalidElement s then []
      else detectTrace (map numberOf s))"

section \<open>Multi-step prediction\<close>

text \<open>The value pushed for \<^verbatim>\<open>result.prediction\<close>; an absent field reads as \<^verbatim>\<open>undefined\<close>.\<close>

fun valueOf :: "jsnum option \<Rightarrow> jsval" where
  "valueOf (Some x) = Number x"
| "valueOf None = NonNumber"

text \<open>
  The loop of \<^verbatim>\<open>predictMultiple\<close>; its first argument is the number of iterations still
  to run, \<^verbatim>\<open>count - i\<close>.
\<close>

fun predictLoop :: "nat \<Rightarrow> jsval list \<Rightarrow> jsval list \<Rightarrow> jsval list \<times> jsval list" where
  "predictLoop 0 preds currentSequence = (preds, currentSequence)"
| "predictLoop (Suc n) preds currentSequence =
     (let res = analyze (Array currentSequence)
      in if \<not> success res then (preds, currentSequence)
         else predictLoop n (preds @ [valueOf (prediction res)])
                (currentSequence @ [valueOf (prediction res)]))"

text \<open>The spread \<^verbatim>\<open>[...sequence]\<close>; reached only after \<^verbatim>\<open>analyze\<close> accepted the input.\<close>

fun elements :: "jsinput \<Rightarrow> jsval list" where
  "elements (Array s) = s"
| "elements NotArray = []"

text \<open>\<^verbatim>\<open>predictMultiple(sequence, count = 5)\<close>: an omitted count is \<open>None\<close>.\<close>

definition predictMultiple :: "jsinput \<Rightarrow> nat option \<Rightarrow> result" where
  "predictMultiple inp countArg =
     (let count = (case countArg of None \<Rightarrow> 5 | Some c \<Rightarrow> c);
          analysis = analyze inp
      in if \<not> success analysis then analysis
         else
           let (preds, currentSequence) = predictLoop count [] (elements inp)
           in analysis \<lparr> predictions := Some preds,
                         extendedSequence := Some currentSequence \<rparr>)"

text \<open>Arrays of finite numbers, as the examples write them.\<close>

definition nums :: "real list \<Rightarrow> jsinput" where
  "nums xs = Array (map (\<lambda>x. Number (Fin x)) xs)"

section \<open>Reference notions\<close>







text \<open>
  The inputs that the validation of \<^verbatim>\<open>analyze\<close> rejects: not an array, fewer than two
  elements, or an element that is not of type number or is \<^verbatim>\<open>NaN\<close>.
\<close>

fun malformed :: "jsinput \<Rightarrow> bool" where
  "malformed NotArray = True"
| "malformed (Array s) = (length s < 2 \<or> list_ex (\<lambda>v. v = NonNumber \<or> v = Number NaN) s)"

text \<open>An element that is not a finite number.\<close>

fun nonFinite :: "jsval \<Rightarrow> bool" where
  "nonFinite (Number (Fin a)) = False"
| "nonFinite v = True"

text \<open>
  The divisors of the divisions that \<^verbatim>\<open>detectGeometric\<close> performs on the elements: none
  after the zero guard has returned, otherwise \<^verbatim>\<open>sequence[i - 1]\<close> for each ratio.
\<close>

fun ratioDivisors :: "jsnum list \<Rightarrow> jsnum list" where
  "ratioDivisors (x # y # zs) = x # ratioDivisors (y # zs)"
| "ratioDivisors zs = []"

definition geometricDivisors :: "jsnum list \<Rightarrow> jsnum list" where
  "geometricDivisors seq = (if list_ex (\<lambda>n. n = Fin 0) seq then [] else ratioDivisors seq)"

text \<open>
  The forward extension of a difference table as the specification words it: the deepest
  level repeats its last value, and every shallower level receives its own last value plus
  the value appended to the next deeper level. \<open>newValue\<close> is the value appended to the
  first level of a table, \<open>extendTable\<close> the table with every level extended by one.
\<close>

fun newValue :: "jsnum list list \<Rightarrow> jsnum" where
  "newValue [] = NaN"
| "newValue [deepest] = toNumber (lastOf deepest)"
| "newValue (level # deeper) = jadd (toNumber (lastOf level)) (newValue deeper)"

fun extendTable :: "jsnum list list \<Rightarrow> jsnum list list" where
  "extendTable [] = []"
| "extendTable (level # deeper) = (level @ [newValue (level # deeper)]) # extendTable deeper"

section \<open>The examples of the test suite\<close>

text \<open>
  C1. \<^verbatim>\<open>analyze([1,2,4,7,13])\<close> is expected to fall through every detector and to answer
  with type \<^verbatim>\<open>unknown\<close>. The code answers otherwise: the fourth difference level is the
  single value 2, a level of one value always passes the constancy test, and the polynomial
  detector accepts the sequence with degree 4 and predicts 26.
\<close>

theorem analyze_1_2_4_7_13:
  "analyze (nums [1, 2, 4, 7, 13]) =
     \<lparr> success = True, type = polynomial, error = None,
       parameters = Some (PolynomialParams 4
         [[Fin 1, Fin 2, Fin 4, Fin 7, Fin 13], [Fin 1, Fin 2, Fin 3, Fin 6],
          [Fin 1, Fin 1, Fin 3], [Fin 0, Fin 2], [Fin 2]]),
       prediction = Some (Fin 26), confidence = Some (9 / 10),
       sequence = Some [Fin 1, Fin 2, Fin 4, Fin 7, Fin 13],
       predictions = None, extendedSequence = None \<rparr>"
  by code_simp

text \<open>
  C5. \<^verbatim>\<open>analyze([1,4,9,16,25])\<close> answers with type \<^verbatim>\<open>polynomial\<close>, degree 2 and the
  prediction 36, and \<^verbatim>\<open>analyze([1,8,27,64,125])\<close> predicts 216.
\<close>

theorem analyze_squares_and_cubes:
  "type (analyze (nums [1, 4, 9, 16, 25])) = polynomial \<and>
   parameters (analyze (nums [1, 4, 9, 16, 25])) =
     Some (PolynomialParams 2
       [[Fin 1, Fin 4, Fin 9, Fin 16, Fin 25], [Fin 3, Fin 5, Fin 7, Fin 9],
        [Fin 2, Fin 2, Fin 2]]) \<and>
   prediction (analyze (nums [1, 4, 9, 16, 25])) = Some (Fin 36) \<and>
   prediction (analyze (nums [1, 8, 27, 64, 125])) = Some (Fin 216)"
  by code_simp

text \<open>
  C6. \<^verbatim>\<open>predictMultiple([3,6,9], 5)\<close> returns the predictions 12, 15, 18, 21, 24 and
  \<^verbatim>\<open>predictMultiple([2,4,8], 3)\<close> returns the predictions 16, 32, 64.
\<close>

theorem predictMultiple_examples:
  "predictions (predictMultiple (nums [3, 6, 9]) (Some 5)) =
     Some [Number (Fin 12), Number (Fin 15), Number (Fin 18), Number (Fin 21),
           Number (Fin 24)] \<and>
   predictions (predictMultiple (nums [2, 4, 8]) (Some 3)) =
     Some [Number (Fin 16), Number (Fin 32), Number (Fin 64)]"
  by code_simp

section \<open>Finite sequences\<close>


lemma length_differencesOf: "length (differencesOf xs) = length xs - 1"
  by (induction xs rule: differencesOf.induct) simp_all

lemma differencesOf_nonempty: "1 < length xs \<Longrightarrow> differencesOf xs \<noteq> []"
  by (cases xs rule: differencesOf.cases) simp_all













section \<open>The order of the detectors\<close>

lemma detectArithmetic_type: "detectArithmetic xs = Some r \<Longrightarrow> type r = arithmetic \<and> success r"
  by (auto simp: detectArithmetic_def Let_def split: if_splits)

lemma detectGeometric_type: "detectGeometric xs = Some r \<Longrightarrow> type r = geometric \<and> success r"
  by (auto simp: detectGeometric_def Let_def split: if_splits)

lemma detectPolynomial_type: "detectPolynomial xs = Some r \<Longrightarrow> type r = polynomial \<and> success r"
  by (auto simp: detectPolynomial_def Let_def split: if_splits prod.splits)

lemma detect_arithmetic_iff:
  "type (detect xs) = arithmetic \<longleftrightarrow> detectArithmetic xs \<noteq> None"
  by (auto simp: detect_def unknownResult_def split: option.splits
      dest: detectArithmetic_type detectGeometric_type detectPolynomial_type)

lemma detect_geometric_iff:
  "type (detect xs) = geometric \<longleftrightarrow> detectArithmetic xs = None \<and> detectGeometric xs \<noteq> None"
  by (auto simp: detect_def unknownResult_def split: option.splits
      dest: detectArithmetic_type detectGeometric_type detectPolynomial_type)

lemma detect_not_invalid: "type (detect xs) \<noteq> invalid"
  by (auto simp: detect_def unknownResult_def split: option.splits
      dest: detectArithmetic_type detectGeometric_type detectPolynomial_type)

lemma detectArithmetic_None_iff:
  "detectArithmetic xs = None \<longleftrightarrow> \<not> everyNear (differencesOf xs) (mean (differencesOf xs))"
  by (simp add: detectArithmetic_def Let_def)

lemma detect_polynomial:
  assumes "type (detect xs) = polynomial"
  shows "detectArithmetic xs = None \<and> detectGeometric xs = None \<and>
         detectPolynomial xs = Some (detect xs)"
  using assms
  by (auto simp: detect_def unknownResult_def split: option.splits
      dest: detectArithmetic_type detectGeometric_type)

lemma analyze_cases:
  "analyze inp = invalidResult ''Sequence must be an array with at least 2 elements'' \<or>
   analyze inp = invalidResult ''All elements must be valid numbers'' \<or>
   (\<exists>s. inp = Array s \<and> 2 \<le> length s \<and> \<not> list_ex invalidElement s \<and>
        analyze inp = detect (map numberOf s))"
  by (cases inp) auto

section \<open>The arithmetic detector\<close>






section \<open>The geometric detector\<close>




text \<open>The ratios are the quotients of each next element by these divisors.\<close>

lemma ratiosOf_divisors:
  "ratiosOf xs = map (\<lambda>(d, y). jdiv y d) (zip (ratioDivisors xs) (tl xs))"
  by (induction xs rule: ratiosOf.induct) simp_all

lemma ratioDivisors_subset: "set (ratioDivisors xs) \<subseteq> set xs"
  by (induction xs rule: ratioDivisors.induct) auto

lemma detectGeometric_zero: "Fin 0 \<in> set xs \<Longrightarrow> detectGeometric xs = None"
  by (auto simp: detectGeometric_def list_ex_iff)

text \<open>
  C8. For every array that contains an element equal to zero, \<^verbatim>\<open>analyze\<close> never answers
  with type \<^verbatim>\<open>geometric\<close>: the geometric detector declines at its zero guard and divides by
  no element. On any sequence, no divisor of the geometric detector is zero.
\<close>

theorem zero_never_geometric:
  assumes "Number (Fin 0) \<in> set s"
  shows "type (analyze (Array s)) \<noteq> geometric \<and>
         detectGeometric (map numberOf s) = None \<and>
         geometricDivisors (map numberOf s) = [] \<and>
         Fin 0 \<notin> set (geometricDivisors xs)"
proof -
  have z: "Fin 0 \<in> set (map numberOf s)"
    using assms by force
  have g: "detectGeometric (map numberOf s) = None"
    using z by (rule detectGeometric_zero)
  have "type (analyze (Array s)) \<noteq> geometric"
    by (simp add: invalidResult_def detect_geometric_iff g)
  moreover have "geometricDivisors (map numberOf s) = []"
    using z by (auto simp: geometricDivisors_def list_ex_iff)
  moreover have "Fin 0 \<notin> set (geometricDivisors xs)"
    using ratioDivisors_subset[of xs] by (auto simp: geometricDivisors_def list_ex_iff)
  ultimately show ?thesis using g by simp
qed

theorem zero_never_geometric_witness:
  "Number (Fin 0) \<in> set [Number (Fin 1), Number (Fin 0), Number (Fin 2)] \<and>
   type (analyze (nums [1, 0, 2])) \<noteq> geometric"
  using zero_never_geometric[of "[Number (Fin 1), Number (Fin 0), Number (Fin 2)]"]
  by (simp add: nums_def)

section \<open>Validation\<close>

lemma invalidElement_iff: "invalidElement v \<longleftrightarrow> v = NonNumber \<or> v = Number NaN"
  by (cases v) (simp_all add: isNaN_def)

text \<open>
  C3, with the elements that the validation really rejects. \<^verbatim>\<open>analyze\<close> answers with type
  \<^verbatim>\<open>invalid\<close> exactly for an input that is not an array, has fewer than two elements, or
  contains an element that is not of type number or is \<^verbatim>\<open>NaN\<close>. For such an input success
  is false, the error message is one of the two messages of the validation, and no
  detector runs.
\<close>

theorem analyze_invalid:
  "(type (analyze inp) = invalid \<longleftrightarrow> malformed inp) \<and>
   (malformed inp \<longrightarrow>
      success (analyze inp) = False \<and>
      (error (analyze inp) = Some ''Sequence must be an array with at least 2 elements'' \<or>
       error (analyze inp) = Some ''All elements must be valid numbers'') \<and>
      analyzeTrace inp = [])"
proof (cases inp)
  case NotArray
  then show ?thesis by (simp add: invalidResult_def)
next
  case (Array s)
  have ex: "list_ex invalidElement s = list_ex (\<lambda>v. v = NonNumber \<or> v = Number NaN) s"
    by (simp add: list_ex_iff invalidElement_iff)
  show ?thesis
    unfolding Array by (simp add: ex invalidResult_def detect_not_invalid)
qed

theorem analyze_invalid_witness:
  "malformed (Array [Number (Fin 1), Number NaN, Number (Fin 3)]) \<and>
   type (analyze (Array [Number (Fin 1), Number NaN, Number (Fin 3)])) = invalid \<and>
   success (analyze (Array [Number (Fin 1), Number NaN, Number (Fin 3)])) = False \<and>
   error (analyze (Array [Number (Fin 1), Number NaN, Number (Fin 3)])) =
     Some ''All elements must be valid numbers'' \<and>
   analyzeTrace (Array [Number (Fin 1), Number NaN, Number (Fin 3)]) = []"
  using analyze_invalid[of "Array [Number (Fin 1), Number NaN, Number (Fin 3)]"]
  by (simp add: invalidResult_def isNaN_def)

text \<open>
  An infinite element is not rejected: \<^verbatim>\<open>analyze([1, Infinity])\<close> passes the validation,
  all three detectors run, and the answer has type \<^verbatim>\<open>unknown\<close>, not \<^verbatim>\<open>invalid\<close>.
\<close>

theorem infinity_counterexample:
  "list_ex nonFinite [Number (Fin 1), Number PInf] \<and>
   type (analyze (Array [Number (Fin 1), Number PInf])) = unknown \<and>
   analyzeTrace (Array [Number (Fin 1), Number PInf]) = [Arithmetic, Geometric, Polynomial]"
  by code_simp

section \<open>Properties of multi-step prediction\<close>





section \<open>The polynomial detector\<close>

lemma buildLevels_stop:
  "\<not> (level < 5 \<and> length cur > 1) \<Longrightarrow> buildLevels level dl cur = (dl, 0)"
  by (subst buildLevels.simps) auto

lemma buildLevels_found:
  "level < 5 \<Longrightarrow> length cur > 1 \<Longrightarrow> everyNear (differencesOf cur) (mean (differencesOf cur)) \<Longrightarrow>
   buildLevels level dl cur = (dl @ [differencesOf cur], level + 1)"
  by (subst buildLevels.simps) (simp add: Let_def differencesOf_nonempty)

lemma buildLevels_next:
  "level < 5 \<Longrightarrow> length cur > 1 \<Longrightarrow> \<not> everyNear (differencesOf cur) (mean (differencesOf cur)) \<Longrightarrow>
   buildLevels level dl cur =
     buildLevels (level + 1) (dl @ [differencesOf cur]) (differencesOf cur)"
  by (subst buildLevels.simps) (simp add: Let_def)

lemma buildLevels_degree: "buildLevels level dl cur = (t, d) \<Longrightarrow> d = 0 \<or> (level < d \<and> d \<le> 5)"
proof (induction level dl cur rule: buildLevels.induct)
  case (1 level diffLevels currentLevel)
  let ?next = "differencesOf currentLevel"
  consider (stop) "\<not> (level < 5 \<and> length currentLevel > 1)"
    | (found) "level < 5" "length currentLevel > 1" "everyNear ?next (mean ?next)"
    | (continue) "level < 5" "length currentLevel > 1" "\<not> everyNear ?next (mean ?next)"
    by blast
  then show ?case
  proof cases
    case stop
    with "1.prems" show ?thesis by (simp add: buildLevels_stop)
  next
    case found
    with "1.prems" show ?thesis by (simp add: buildLevels_found)
  next
    case continue
    with "1.prems" have "buildLevels (level + 1) (diffLevels @ [?next]) ?next = (t, d)"
      by (simp add: buildLevels_next)
    with "1.IH"[of ?next "diffLevels @ [?next]"] continue show ?thesis by auto
  qed
qed

lemma buildLevels_degree_one:
  assumes "buildLevels 0 dl cur = (t, Suc 0)"
  shows "everyNear (differencesOf cur) (mean (differencesOf cur))"
proof (rule ccontr)
  assume n: "\<not> everyNear (differencesOf cur) (mean (differencesOf cur))"
  show False
  proof (cases "length cur > 1")
    case False
    with assms show False by (simp add: buildLevels_stop)
  next
    case True
    with n assms have "buildLevels 1 (dl @ [differencesOf cur]) (differencesOf cur) = (t, Suc 0)"
      by (simp add: buildLevels_next)
    from buildLevels_degree[OF this] show False by simp
  qed
qed

lemma detect_parameters_polynomial:
  assumes "parameters (detect xs) = Some (PolynomialParams d t)"
  shows "detectArithmetic xs = None \<and> buildLevels 0 [xs] xs = (t, d) \<and> 0 < d \<and> d \<le> 4 \<and>
         4 \<le> length xs \<and>
         type (detect xs) = polynomial \<and> prediction (detect xs) = predictFromDifferences t"
proof -
  have a: "detectArithmetic xs = None"
    using assms by (auto simp: detect_def detectArithmetic_def Let_def split: option.splits if_splits)
  have g: "detectGeometric xs = None"
    using assms a by (auto simp: detect_def detectGeometric_def Let_def split: option.splits if_splits)
  define r where "r = detect xs"
  from assms a g have "detectPolynomial xs = Some r"
    by (auto simp: r_def detect_def unknownResult_def split: option.splits)
  moreover from assms have "parameters r = Some (PolynomialParams d t)"
    by (simp add: r_def)
  ultimately have "buildLevels 0 [xs] xs = (t, d) \<and> 0 < d \<and> d \<le> 4 \<and> 4 \<le> length xs \<and>
         type r = polynomial \<and> prediction r = predictFromDifferences t"
    by (auto simp: detectPolynomial_def Let_def split: if_splits prod.splits)
  with a show ?thesis by (simp add: r_def)
qed

text \<open>
  C10. \<^verbatim>\<open>analyze\<close> never answers with a polynomial of degree 1: a validated sequence
  whose first difference level passes the constancy test is claimed by the arithmetic
  detector, which runs first and applies the same test.
\<close>

theorem polynomial_degree_not_one:
  "parameters (analyze inp) \<noteq> Some (PolynomialParams 1 table) \<and>
   (2 \<le> length s \<and> \<not> list_ex invalidElement s \<and>
    everyNear (differencesOf (map numberOf s)) (mean (differencesOf (map numberOf s)))
    \<longrightarrow> type (analyze (Array s)) = arithmetic)"
proof -
  have "parameters (analyze inp) \<noteq> Some (PolynomialParams 1 table)"
  proof
    assume p: "parameters (analyze inp) = Some (PolynomialParams 1 table)"
    with analyze_cases[of inp] obtain xs where d: "analyze inp = detect xs"
      by (auto simp: invalidResult_def)
    from p d detect_parameters_polynomial[of xs 1 table]
    have "detectArithmetic xs = None" "buildLevels 0 [xs] xs = (table, Suc 0)"
      by simp_all
    with buildLevels_degree_one[of "[xs]" xs table] show False
      by (simp add: detectArithmetic_None_iff)
  qed
  moreover have "2 \<le> length s \<and> \<not> list_ex invalidElement s \<and>
    everyNear (differencesOf (map numberOf s)) (mean (differencesOf (map numberOf s)))
    \<longrightarrow> type (analyze (Array s)) = arithmetic"
    by (auto simp: detect_arithmetic_iff detectArithmetic_None_iff)
  ultimately show ?thesis by blast
qed

theorem polynomial_degree_not_one_witness:
  "2 \<le> length [Number (Fin 3), Number (Fin 6), Number (Fin 9)] \<and>
   \<not> list_ex invalidElement [Number (Fin 3), Number (Fin 6), Number (Fin 9)] \<and>
   everyNear (differencesOf [Fin 3, Fin 6, Fin 9]) (mean (differencesOf [Fin 3, Fin 6, Fin 9])) \<and>
   type (analyze (nums [3, 6, 9])) = arithmetic \<and>
   parameters (analyze (nums [1, 4, 9, 16, 25])) \<noteq> Some (PolynomialParams 1 [])"
proof -
  have e: "everyNear (differencesOf [Fin 3, Fin 6, Fin 9]) (mean (differencesOf [Fin 3, Fin 6, Fin 9]))"
    by code_simp
  show ?thesis
    using polynomial_degree_not_one[of "nums [1, 4, 9, 16, 25]" "[]"
      "[Number (Fin 3), Number (Fin 6), Number (Fin 9)]"] e
    by (simp add: nums_def isNaN_def)
qed

subsection \<open>The difference table and its extension\<close>

lemma newValue_Cons:
  "deeper \<noteq> [] \<Longrightarrow> newValue (level # deeper) = jadd (toNumber (lastOf level)) (newValue deeper)"
  by (cases deeper) simp_all

lemma newValue_snoc:
  "p \<noteq> [] \<Longrightarrow> c \<noteq> [] \<Longrightarrow>
   newValue (ls @ [p @ [jadd (last p) (last c)]]) = newValue (ls @ [p, c])"
  by (induction ls) (simp_all add: newValue_Cons lastOf_def)

lemma length_extendLevels: "length (extendLevels j ext) = length ext"
  by (induction j arbitrary: ext) (simp_all add: Let_def)

lemma extendLevels_top:
  assumes "j < length ext" and "\<forall>l \<in> set (take (Suc j) ext). l \<noteq> []" and "0 < j"
  shows "extendLevels j ext ! 0 = (ext ! 0) @ [newValue (take (Suc j) ext)]"
  using assms
proof (induction j arbitrary: ext)
  case 0
  then show ?case by simp
next
  case (Suc j)
  let ?cur = "ext ! Suc j" and ?par = "ext ! j"
  let ?v = "jadd (last ?par) (last ?cur)"
  let ?ext' = "ext[Suc j := ?cur @ [last ?cur], j := ?par @ [?v]]"
  have jl: "j < length ext" and sjl: "Suc j < length ext"
    using Suc.prems(1) by simp_all
  have tk: "take (Suc (Suc j)) ext = take j ext @ [?par, ?cur]"
    using jl sjl by (simp add: take_Suc_conv_app_nth)
  have cur: "?cur \<noteq> []" and par: "?par \<noteq> []"
    using Suc.prems(2) unfolding tk by simp_all
  have low: "\<forall>l \<in> set (take j ext). l \<noteq> []"
    using Suc.prems(2) unfolding tk by simp
  have step: "extendLevels (Suc j) ext = extendLevels j ?ext'"
    using cur par by (simp add: Let_def lastOf_def)
  have tk': "take (Suc j) ?ext' = take j ext @ [?par @ [?v]]"
    using jl by (simp add: take_Suc_conv_app_nth)
  show ?case
  proof (cases j)
    case 0
    then show ?thesis
      using step tk cur par jl sjl by (simp add: lastOf_def)
  next
    case (Suc k)
    have "extendLevels j ?ext' ! 0 = (?ext' ! 0) @ [newValue (take (Suc j) ?ext')]"
    proof (rule Suc.IH)
      show "j < length ?ext'" using jl by simp
      show "\<forall>l \<in> set (take (Suc j) ?ext'). l \<noteq> []" unfolding tk' using low by simp
      show "0 < j" using Suc by simp
    qed
    moreover have "?ext' ! 0 = ext ! 0"
      using Suc by simp
    moreover have "newValue (take (Suc j) ?ext') = newValue (take (Suc (Suc j)) ext)"
      unfolding tk tk' using par cur by (rule newValue_snoc)
    ultimately show ?thesis
      using step by simp
  qed
qed

lemma predictFromDifferences_newValue:
  assumes "t \<noteq> []" and "\<forall>l \<in> set t. l \<noteq> []"
  shows "predictFromDifferences t = Some (newValue t)"
proof (cases "length t - 1")
  case 0
  with assms obtain l where "t = [l]" "l \<noteq> []"
    by (cases t) auto
  then show ?thesis
    by (simp add: predictFromDifferences_def lastOf_def)
next
  case (Suc k)
  let ?e = "extendLevels (length t - 1) t"
  have "?e ! 0 = (t ! 0) @ [newValue (take (Suc (length t - 1)) t)]"
    using assms Suc by (intro extendLevels_top) auto
  moreover have "take (Suc (length t - 1)) t = t"
    by simp
  moreover have "?e \<noteq> []"
    using assms(1) length_extendLevels[of "length t - 1" t] by auto
  ultimately have "\<exists>rest. ?e = ((t ! 0) @ [newValue t]) # rest"
    by (cases ?e) auto
  then show ?thesis
    by (auto simp: predictFromDifferences_def lastOf_def)
qed

lemma length_iterated_differences:
  "length ((differencesOf ^^ k) xs) = length xs - k"
  by (induction k) (simp_all add: length_differencesOf)

lemma buildLevels_table:
  "buildLevels level dl cur = (t, d) \<Longrightarrow> 0 < d \<Longrightarrow>
     level < d \<and>
     t = dl @ map (\<lambda>k. (differencesOf ^^ k) cur) [1 ..< Suc (d - level)] \<and>
     (differencesOf ^^ (d - level)) cur \<noteq> [] \<and>
     everyNear ((differencesOf ^^ (d - level)) cur) (mean ((differencesOf ^^ (d - level)) cur))"
proof (induction level dl cur rule: buildLevels.induct)
  case (1 level diffLevels currentLevel)
  let ?next = "differencesOf currentLevel"
  consider (stop) "\<not> (level < 5 \<and> length currentLevel > 1)"
    | (found) "level < 5" "length currentLevel > 1" "everyNear ?next (mean ?next)"
    | (continue) "level < 5" "length currentLevel > 1" "\<not> everyNear ?next (mean ?next)"
    by blast
  then show ?case
  proof cases
    case stop
    with "1.prems" show ?thesis by (simp add: buildLevels_stop)
  next
    case found
    with "1.prems" show ?thesis by (auto simp: buildLevels_found differencesOf_nonempty)
  next
    case continue
    with "1.prems" have rec: "buildLevels (level + 1) (diffLevels @ [?next]) ?next = (t, d)"
      by (simp add: buildLevels_next)
    with "1.IH"[of ?next "diffLevels @ [?next]"] continue "1.prems"(2)
    have ih: "level + 1 < d"
      "t = (diffLevels @ [?next]) @ map (\<lambda>k. (differencesOf ^^ k) ?next) [1 ..< Suc (d - (level + 1))]"
      "(differencesOf ^^ (d - (level + 1))) ?next \<noteq> []"
      "everyNear ((differencesOf ^^ (d - (level + 1))) ?next)
         (mean ((differencesOf ^^ (d - (level + 1))) ?next))"
      by auto
    have shift: "(differencesOf ^^ k) ?next = (differencesOf ^^ Suc k) currentLevel" for k
      by (simp add: funpow_swap1)
    have dl: "d - level = Suc (d - (level + 1))"
      using ih(1) by simp
    have "[1 ..< Suc (d - level)] = 1 # map Suc [1 ..< Suc (d - (level + 1))]"
      unfolding dl by (simp add: map_Suc_upt upt_conv_Cons del: upt_Suc)
    then have "map (\<lambda>k. (differencesOf ^^ k) currentLevel) [1 ..< Suc (d - level)] =
          ?next # map (\<lambda>k. (differencesOf ^^ k) ?next) [1 ..< Suc (d - (level + 1))]"
      by (simp add: shift comp_def del: upt_Suc funpow.simps) simp
    moreover have "(differencesOf ^^ (d - level)) currentLevel =
          (differencesOf ^^ (d - (level + 1))) ?next"
      unfolding dl shift ..
    ultimately show ?thesis using ih by simp
  qed
qed

lemma extendTable_top:
  "t \<noteq> [] \<Longrightarrow> lastOf (hd (extendTable t)) = Some (newValue t)"
  by (cases t) (simp_all add: lastOf_def)

lemma detect_polynomial_parameters:
  assumes "type (detect xs) = polynomial"
  shows "\<exists>d t. parameters (detect xs) = Some (PolynomialParams d t)"
proof -
  define r where "r = detect xs"
  from detect_polynomial[OF assms] have "detectPolynomial xs = Some r"
    by (simp add: r_def)
  then have "\<exists>d t. parameters r = Some (PolynomialParams d t)"
    by (auto simp: detectPolynomial_def Let_def split: if_splits prod.splits)
  then show ?thesis by (simp add: r_def)
qed

text \<open>
  C7, with the table as the code returns it. Whenever \<^verbatim>\<open>analyze\<close> answers with type
  \<^verbatim>\<open>polynomial\<close>, the parameters hold the detected degree, between 2 and 4, and the
  difference table of the levels 0 to the degree as they were built, not extended; the last
  level is the constant one. The prediction is the value that the forward extension of
  this table appends to level 0: the constant level repeats its last value, and each
  shallower level receives its own last value plus the value appended below it.
\<close>

theorem polynomial_result:
  assumes "type (analyze inp) = polynomial"
  shows "\<exists>degree table.
      parameters (analyze inp) = Some (PolynomialParams degree table) \<and>
      2 \<le> degree \<and> degree \<le> 4 \<and>
      table = map (\<lambda>k. (differencesOf ^^ k) (map numberOf (elements inp))) [0 ..< Suc degree] \<and>
      everyNear (last table) (mean (last table)) \<and>
      prediction (analyze inp) = Some (newValue table) \<and>
      prediction (analyze inp) = lastOf (hd (extendTable table))"
proof -
  from assms analyze_cases[of inp] obtain s where
    inp: "inp = Array s" and a: "analyze inp = detect (map numberOf s)"
    by (auto simp: invalidResult_def)
  let ?xs = "map numberOf s"
  let ?level = "\<lambda>k. (differencesOf ^^ k) ?xs"
  from assms a detect_polynomial_parameters[of ?xs] obtain d t where
    p: "parameters (detect ?xs) = Some (PolynomialParams d t)"
    by auto
  from detect_parameters_polynomial[OF p] have
    ar: "detectArithmetic ?xs = None" and b: "buildLevels 0 [?xs] ?xs = (t, d)" and
    d: "0 < d" "d \<le> 4" and pr: "prediction (detect ?xs) = predictFromDifferences t"
    by simp_all
  from buildLevels_table[OF b d(1)] have
    t1: "t = [?xs] @ map ?level [1 ..< Suc d]" and ne: "?level d \<noteq> []" and
    c: "everyNear (?level d) (mean (?level d))"
    by simp_all
  have t: "t = map ?level [0 ..< Suc d]"
    unfolding t1 by (simp add: upt_conv_Cons del: upt_Suc)
  have "d \<noteq> Suc 0"
    using buildLevels_degree_one[of "[?xs]" ?xs t] b ar
    by (auto simp: detectArithmetic_None_iff)
  with d have d2: "2 \<le> d" by simp
  have lt: "last t = ?level d"
    unfolding t by (simp del: funpow.simps)
  have dl: "d < length ?xs"
    using ne length_iterated_differences[of d ?xs] by (cases "d < length ?xs") simp_all
  have nonempty: "?level k \<noteq> []" if "k \<le> d" for k
  proof
    assume "?level k = []"
    then have "length (?level k) = 0" by (simp only: list.size)
    then show False
      using length_iterated_differences[of k ?xs] that dl by simp
  qed
  have all: "\<forall>l \<in> set t. l \<noteq> []"
  proof
    fix l assume "l \<in> set t"
    then obtain k where "k < Suc d" "l = ?level k"
      unfolding t by (auto simp del: upt_Suc funpow.simps)
    then show "l \<noteq> []" using nonempty[of k] by simp
  qed
  have tne: "t \<noteq> []"
    unfolding t by simp
  have 1: "parameters (analyze inp) = Some (PolynomialParams d t)"
    using a p by simp
  have 2: "t = map (\<lambda>k. (differencesOf ^^ k) (map numberOf (elements inp))) [0 ..< Suc d]"
    using t by (simp only: inp elements.simps)
  have 3: "everyNear (last t) (mean (last t))"
    using c by (simp only: lt)
  have 4: "prediction (analyze inp) = Some (newValue t)"
    using a pr predictFromDifferences_newValue[OF tne all] by simp
  have 5: "prediction (analyze inp) = lastOf (hd (extendTable t))"
    using 4 extendTable_top[OF tne] by simp
  from 1 d2 d(2) 2 3 4 5 show ?thesis by blast
qed

theorem polynomial_result_witness:
  "type (analyze (nums [1, 4, 9, 16, 25])) = polynomial \<and>
   (\<exists>degree table.
      parameters (analyze (nums [1, 4, 9, 16, 25])) = Some (PolynomialParams degree table) \<and>
      prediction (analyze (nums [1, 4, 9, 16, 25])) = Some (newValue table))"
proof -
  have e: "type (analyze (nums [1, 4, 9, 16, 25])) = polynomial"
    by code_simp
  from polynomial_result[OF e] show ?thesis
    using e by blast
qed

text \<open>
  The returned table is not the extended one: for \<open>[1, 4, 9, 16, 25]\<close> the extension
  appends 36, 11 and 2 to the three levels, and the parameters hold the levels without them.
\<close>

theorem returned_table_counterexample:
  "type (analyze (nums [1, 4, 9, 16, 25])) = polynomial \<and>
   extendTable [[Fin 1, Fin 4, Fin 9, Fin 16, Fin 25], [Fin 3, Fin 5, Fin 7, Fin 9],
                [Fin 2, Fin 2, Fin 2]] =
     [[Fin 1, Fin 4, Fin 9, Fin 16, Fin 25, Fin 36], [Fin 3, Fin 5, Fin 7, Fin 9, Fin 11],
      [Fin 2, Fin 2, Fin 2, Fin 2]] \<and>
   parameters (analyze (nums [1, 4, 9, 16, 25])) \<noteq>
     Some (PolynomialParams 2
       [[Fin 1, Fin 4, Fin 9, Fin 16, Fin 25, Fin 36], [Fin 3, Fin 5, Fin 7, Fin 9, Fin 11],
        [Fin 2, Fin 2, Fin 2, Fin 2]])"
  by code_simp

end
